theory Spec2Isabelle
  imports Main
begin

section \<open>The OmniScience workspace (src/App.tsx)\<close>

text \<open>
  The application is one React component, \<open>App\<close>, whose state is a handful of
  \<open>useState\<close> cells, and a set of editor components that are views over one file's
  content. The model below follows the source function by function.

  \<^item> JavaScript strings are \<open>string\<close>; a character is one code unit below 256.
  \<^item> A value that may be \<open>undefined\<close> at run time is an \<open>option\<close>, \<open>None\<close> being
    \<open>undefined\<close>. The interface \<open>VirtualFile\<close> declares \<open>content: string\<close>, but the value
    stored there comes from \<open>JSON.parse\<close> (typed \<open>any\<close>) on one path, so the model keeps
    what can really be stored.
  \<^item> \<open>Math.random().toString(36).substr(2, 9)\<close> and \<open>Date.now()\<close> are read from the
    environment: the string drawn and the time read are arguments of the functions that
    use them.
  \<^item> \<open>JSON.parse\<close> and \<open>JSON.stringify\<close> on a chat history are the platform's: they are
    the two fields of a \<open>JSON\<close> argument. \<open>parse\<close> gives \<open>None\<close> where \<open>JSON.parse\<close>
    throws. The model covers chat contents that are unparseable or the serialisation of
    a message array.
  \<^item> A state setter called with a function (\<open>setFiles(prev => ...)\<close>) acts on the state
    current at that time; a handler reads the state cells of the render that created it.
    The code after \<open>await\<close> in \<open>handleSendMessage\<close> therefore reads the \<open>files\<close> of the
    render in which the message was sent, and updates the current ones.
\<close>

subsection \<open>Types\<close>

datatype FileType = Chat | Code | Doc | Whiteboard | Sheet | Slide | Note

text \<open>The field \<open>data?: any\<close> of \<open>VirtualFile\<close> is never read or written and is left out.\<close>

record VirtualFile =
  id_f :: string
  name :: string
  type :: "FileType option"
  content :: "string option"

datatype Role = User | Model

record Message =
  role :: Role
  text_m :: string
  specialist :: "string option"
  timestamp :: int

datatype error = SyntaxError | TypeError

record JSON =
  parse :: "string \<Rightarrow> Message list option"
  stringify :: "Message list \<Rightarrow> string"

text \<open>
  The action object of a reply, after \<open>JSON.parse\<close>. Every field may be absent; the
  fields present are strings, \<open>file_type\<close> one of the file types.
\<close>

record ActionData =
  action :: "string option"
  file_id :: "string option"
  file_type :: "FileType option"
  file_name :: "string option"
  content_a :: "string option"

text \<open>
  The state cells of \<open>App\<close> that the modelled handlers read or write. \<open>isSidebarOpen\<close>,
  \<open>projectFolderOpen\<close> and \<open>terminalOutput\<close> are touched by none of them.
\<close>

record AppState =
  apiKey :: string
  files :: "VirtualFile list"
  openTabIds :: "string list"
  activeTabId :: string
  isGoogleMenuOpen :: bool
  isProcessing :: bool
  currentSpecialist :: string
  chatInput :: string

subsection \<open>JavaScript string and array operations\<close>

abbreviation nl :: char where
  "nl \<equiv> CHR 0x0A"

text \<open>A string is truthy when it is not empty.\<close>

definition truthy :: "string \<Rightarrow> bool" where
  "truthy s = (s \<noteq> [])"

text \<open>\<open>a || b\<close> where \<open>a\<close> is a string or \<open>undefined\<close>.\<close>

definition or_else :: "string option \<Rightarrow> string \<Rightarrow> string" where
  "or_else a b = (case a of None \<Rightarrow> b | Some s \<Rightarrow> if truthy s then s else b)"

text \<open>\<open>xs[i]\<close> for any integer \<open>i\<close>: \<open>undefined\<close> out of range.\<close>

definition js_index :: "'a list \<Rightarrow> int \<Rightarrow> 'a option" where
  "js_index xs i = (if 0 \<le> i \<and> i < int (length xs) then Some (xs ! nat i) else None)"

text \<open>
  \<open>xs[i] = v\<close> on an array of strings: past the end the array grows, and the holes it
  leaves are read by \<open>join\<close> as empty strings.
\<close>

definition js_set :: "string list \<Rightarrow> nat \<Rightarrow> string \<Rightarrow> string list" where
  "js_set xs i v =
     (if i < length xs then xs[i := v] else xs @ replicate (i - length xs) [] @ [v])"

text \<open>The white space of ECMAScript among the code units below 256.\<close>

definition isWhiteSpace :: "char \<Rightarrow> bool" where
  "isWhiteSpace c = (c \<in> set [CHR 0x09, CHR 0x0A, CHR 0x0B, CHR 0x0C, CHR 0x0D, CHR 0x20, CHR 0xA0])"

definition trim :: "string \<Rightarrow> string" where
  "trim s = rev (dropWhile isWhiteSpace (rev (dropWhile isWhiteSpace s)))"

text \<open>\<open>s.split(sep)\<close> for a separator of one character: never an empty array.\<close>

fun split :: "char \<Rightarrow> string \<Rightarrow> string list" where
  "split sep [] = [[]]"
| "split sep (x # xs) =
     (if x = sep then [] # split sep xs
      else (case split sep xs of [] \<Rightarrow> [[x]] | w # ws \<Rightarrow> (x # w) # ws))"

text \<open>\<open>xs.join(sep)\<close>.\<close>

fun join :: "string \<Rightarrow> string list \<Rightarrow> string" where
  "join sep [] = []"
| "join sep [x] = x"
| "join sep (x # y # ys) = x @ sep @ join sep (y # ys)"

subsection \<open>The workspace store\<close>

text \<open>The first state of \<open>App\<close>; the API key is \<open>process.env.API_KEY || ''\<close>.\<close>

definition initialState :: "string \<Rightarrow> AppState" where
  "initialState key =
     \<lparr>apiKey = key,
      files = [\<lparr>id_f = ''1'', name = ''MWI_Chat'', type = Some Chat, content = Some ''[]''\<rparr>],
      openTabIds = [''1''], activeTabId = ''1'', isGoogleMenuOpen = False,
      isProcessing = False, currentSpecialist = ''The Liaison'', chatInput = []\<rparr>"

definition activeFile :: "AppState \<Rightarrow> VirtualFile option" where
  "activeFile st = find (\<lambda>f. id_f f = activeTabId st) (files st)"

definition extensions :: "FileType \<Rightarrow> string" where
  "extensions t =
     (case t of Code \<Rightarrow> ''py'' | Doc \<Rightarrow> ''doc'' | Sheet \<Rightarrow> ''csv'' | Whiteboard \<Rightarrow> ''board''
      | Chat \<Rightarrow> ''chat'' | Slide \<Rightarrow> ''slide'' | Note \<Rightarrow> ''txt'')"

text \<open>
  \<open>createNewFile(type, name?, content = '')\<close>; \<open>newId\<close> is the string drawn from
  \<open>Math.random\<close>. A type that is \<open>undefined\<close> reads \<open>extensions[type]\<close> as \<open>undefined\<close>.
\<close>

definition createNewFile ::
  "string \<Rightarrow> FileType option \<Rightarrow> string option \<Rightarrow> string option \<Rightarrow> AppState \<Rightarrow> string \<times> AppState"
where
  "createNewFile newId ty nm cont st =
     (let fileName = or_else nm
            (''Untitled.'' @ (case ty of None \<Rightarrow> ''undefined'' | Some t \<Rightarrow> extensions t));
          initialContent = or_else (Some (case cont of None \<Rightarrow> [] | Some c \<Rightarrow> c))
            (if ty = Some Sheet
               then ''Header 1,Header 2,Header 3'' @ [nl] @ ''Data 1,Data 2,Data 3''
             else if ty = Some Chat then ''[]''
             else if ty = Some Code then ''# New Script''
             else if ty = Some Slide then ''Title Slide'' @ [nl] @ ''Subtitle goes here''
             else []);
          newFile = \<lparr>id_f = newId, name = fileName, type = ty, content = Some initialContent\<rparr>
      in (newId,
          st\<lparr>files := files st @ [newFile], openTabIds := openTabIds st @ [newId],
             activeTabId := newId, isGoogleMenuOpen := False\<rparr>))"

definition updateFileContent :: "string \<Rightarrow> string option \<Rightarrow> AppState \<Rightarrow> AppState" where
  "updateFileContent i c st =
     st\<lparr>files := map (\<lambda>f. if id_f f = i then f\<lparr>content := c\<rparr> else f) (files st)\<rparr>"

text \<open>The \<open>onClick\<close> of a sidebar item: open the file's tab if it is closed, and select it.\<close>

definition openTab :: "string \<Rightarrow> AppState \<Rightarrow> AppState" where
  "openTab i st =
     st\<lparr>openTabIds := (if i \<in> set (openTabIds st) then openTabIds st else openTabIds st @ [i]),
        activeTabId := i\<rparr>"

text \<open>The \<open>onClose\<close> of the tab \<open>i\<close>.\<close>

definition closeTab :: "string \<Rightarrow> AppState \<Rightarrow> AppState" where
  "closeTab i st =
     (let newOpen = filter (\<lambda>tid. tid \<noteq> i) (openTabIds st)
      in st\<lparr>openTabIds := newOpen,
            activeTabId :=
              (if activeTabId st = i
               then or_else (js_index newOpen (int (length newOpen) - 1)) []
               else activeTabId st)\<rparr>)"

text \<open>
  The fallback as the specification words it: the tab immediately before the closed one,
  if there is one.
\<close>

definition precedingTab_spec :: "string \<Rightarrow> string list \<Rightarrow> string option" where
  "precedingTab_spec i tabs =
     (case takeWhile (\<lambda>tid. tid \<noteq> i) tabs of [] \<Rightarrow> None | t # ts \<Rightarrow> Some (last (t # ts)))"

subsection \<open>SlideEditor\<close>

text \<open>
  The argument of \<open>onChange\<close> for an edit of the title input and of the body text area;
  \<open>App\<close> stores it with \<open>updateFileContent\<close>. \<open>lines[0]\<close> of an empty array would read
  \<open>undefined\<close>, which \<open>+\<close> turns into text.
\<close>

definition slideTitleChange :: "string \<Rightarrow> string \<Rightarrow> string" where
  "slideTitleChange cont v = join [nl] (js_set (split nl cont) 0 v)"

definition slideBodyChange :: "string \<Rightarrow> string \<Rightarrow> string" where
  "slideBodyChange cont rest =
     (case js_index (split nl cont) 0 of None \<Rightarrow> ''undefined'' | Some l \<Rightarrow> l) @ [nl] @ rest"

subsection \<open>SheetEditor\<close>

definition sheetRows :: "string \<Rightarrow> string list list" where
  "sheetRows cont = map (split CHR '','') (split nl cont)"

text \<open>\<open>while(rows.length < 50) rows.push(new Array(10).fill(''))\<close>\<close>

function padRows :: "string list list \<Rightarrow> string list list" where
  "padRows rows = (if length rows < 50 then padRows (rows @ [replicate 10 []]) else rows)"
  by pat_completeness auto
termination
  by (relation "measure (\<lambda>rows. 50 - length rows)") auto

text \<open>\<open>while(r.length < 20) r.push('')\<close>\<close>

function padRow :: "string list \<Rightarrow> string list" where
  "padRow r = (if length r < 20 then padRow (r @ [[]]) else r)"
  by pat_completeness auto
termination
  by (relation "measure (\<lambda>r. 20 - length r)") auto

text \<open>The two loops unfold only on request: their equations would rewrite for ever.\<close>

declare padRows.simps [simp del] padRow.simps [simp del]

definition ensureGrid :: "string list list \<Rightarrow> string list list" where
  "ensureGrid rows = map padRow (padRows rows)"

text \<open>
  \<open>handleCellChange(r, c, val)\<close>: the argument of \<open>onChange\<close>. The inputs rendered have
  \<open>r\<close> and \<open>c\<close> inside the grid; a row index outside it would read \<open>undefined[c]\<close>.
\<close>

definition handleCellChange :: "string \<Rightarrow> nat \<Rightarrow> nat \<Rightarrow> string \<Rightarrow> error + string" where
  "handleCellChange cont r c val =
     (let grid = ensureGrid (sheetRows cont)
      in if r < length grid
         then Inr (join [nl] (map (join '','') (grid[r := js_set (grid ! r) c val])))
         else Inl TypeError)"

subsection \<open>The assistant client and the action dispatcher\<close>

text \<open>
  A request in flight: the \<open>contents\<close> sent and the workspace text that follows the
  fixed prolog in \<open>systemInstruction\<close>, with what the code after \<open>await\<close> has
  captured: the id of the chat file, \<open>newHistory\<close>, and the \<open>files\<close> of the render
  that sent the message.
\<close>

record Request =
  contents :: "(Role \<times> string) list"
  workspace :: string
  chatId :: string
  newHistory :: "Message list"
  sentFiles :: "VirtualFile list"

record World =
  app :: AppState
  outstanding :: "Request list"

definition typeString :: "FileType option \<Rightarrow> string" where
  "typeString ty =
     (case ty of None \<Rightarrow> ''undefined'' | Some Chat \<Rightarrow> ''chat'' | Some Code \<Rightarrow> ''code''
      | Some Doc \<Rightarrow> ''doc'' | Some Whiteboard \<Rightarrow> ''whiteboard'' | Some Sheet \<Rightarrow> ''sheet''
      | Some Slide \<Rightarrow> ''slide'' | Some Note \<Rightarrow> ''note'')"

text \<open>One entry of \<open>workspaceContext\<close>; \<open>f.content.substring\<close> throws on \<open>undefined\<close>.\<close>

definition workspaceEntry :: "VirtualFile \<Rightarrow> string option" where
  "workspaceEntry f =
     (case content f of
        None \<Rightarrow> None
      | Some c \<Rightarrow>
          Some ([nl] @ ''      --- FILE: '' @ name f @ '' (ID: '' @ id_f f @ '', TYPE: ''
                @ typeString (type f) @ '') ---'' @ [nl] @ ''      '' @ take 3000 c @ ''...''
                @ [nl] @ ''    ''))"

definition workspaceContext :: "VirtualFile list \<Rightarrow> string option" where
  "workspaceContext fs = map_option (join [nl]) (those (map workspaceEntry fs))"

text \<open>
  \<open>handleSendMessage\<close> up to its \<open>await\<close>. The result is the exception thrown, if any,
  and the world it leaves: a \<open>SyntaxError\<close> of \<open>JSON.parse\<close> comes before any state is
  set, a \<open>TypeError\<close> of \<open>workspaceContext\<close> after the state is set and before the
  \<open>try\<close>. Entering the \<open>try\<close> issues the request.
\<close>

definition handleSendMessage :: "JSON \<Rightarrow> int \<Rightarrow> World \<Rightarrow> error option \<times> World" where
  "handleSendMessage J now w =
     (let st = app w in
      if \<not> truthy (trim (chatInput st)) \<or> \<not> truthy (apiKey st) then (None, w)
      else
        (case activeFile st of
           None \<Rightarrow> (None, w)
         | Some activeChatFile \<Rightarrow>
             if type activeChatFile \<noteq> Some Chat then (None, w)
             else
               (case Option.bind (content activeChatFile) (parse J) of
                  None \<Rightarrow> (Some SyntaxError, w)
                | Some history \<Rightarrow>
                    (let userMsg = \<lparr>role = User, text_m = chatInput st, specialist = None,
                                     timestamp = now\<rparr>;
                         newHist = history @ [userMsg];
                         st1 = (updateFileContent (id_f activeChatFile)
                                  (Some (stringify J newHist)) st)
                                 \<lparr>isProcessing := True, chatInput := []\<rparr>
                     in (case workspaceContext (files st) of
                           None \<Rightarrow> (Some TypeError, w\<lparr>app := st1\<rparr>)
                         | Some ctx \<Rightarrow>
                             (None,
                              \<lparr>app = st1,
                               outstanding = outstanding w @
                                 [\<lparr>contents = map (\<lambda>m. (role m, text_m m)) newHist,
                                   workspace = ctx, chatId = id_f activeChatFile,
                                   newHistory = newHist, sentFiles = files st\<rparr>]\<rparr>))))))"

text \<open>
  The target of an \<open>update_file\<close> action: \<open>files.find(f => f.name === file_name || f.id === file_id)\<close>.
\<close>

definition findTarget :: "VirtualFile list \<Rightarrow> ActionData \<Rightarrow> VirtualFile option" where
  "findTarget fs a = find (\<lambda>f. Some (name f) = file_name a \<or> Some (id_f f) = file_id a) fs"

text \<open>
  The target as the specification words it: a match of \<open>file_name\<close> first, a match of
  \<open>file_id\<close> only when no file matches by name.
\<close>

definition findTarget_spec :: "VirtualFile list \<Rightarrow> ActionData \<Rightarrow> VirtualFile option" where
  "findTarget_spec fs a =
     (case find (\<lambda>f. Some (name f) = file_name a) fs of
        Some t \<Rightarrow> Some t
      | None \<Rightarrow> find (\<lambda>f. Some (id_f f) = file_id a) fs)"

text \<open>
  The dispatch of a parsed action. \<open>fs\<close> is the \<open>files\<close> the handler has captured,
  \<open>newId\<close> the string \<open>createNewFile\<close> would draw.
\<close>

definition dispatchAction :: "VirtualFile list \<Rightarrow> string \<Rightarrow> ActionData \<Rightarrow> AppState \<Rightarrow> AppState" where
  "dispatchAction fs newId a st =
     (if action a = Some ''create_file''
        then snd (createNewFile newId (file_type a) (file_name a) (content_a a) st)
      else if action a = Some ''update_file''
        then (case findTarget fs a of
                None \<Rightarrow> st
              | Some target \<Rightarrow> updateFileContent (id_f target) (content_a a) st)
      else st)"

text \<open>
  What the backend answered. In a reply, \<open>fullText\<close> is \<open>response.text || ""\<close>,
  \<open>specMatch\<close> the group captured by the regular expression of the specialist label,
  and \<open>jsonMatch\<close> the outcome of the regular expression of the trailing block: the text
  with the block removed, and the action parsed from the block, \<open>None\<close> where
  \<open>JSON.parse\<close> throws. The matching itself is the platform's.
\<close>

record Reply =
  fullText :: string
  specMatch :: "string option"
  jsonMatch :: "(string \<times> ActionData option) option"

datatype Response = Answered Reply | Failed string

text \<open>\<open>handleSendMessage\<close> from its \<open>await\<close> on, for the request \<open>rq\<close>.\<close>

definition settle :: "JSON \<Rightarrow> int \<Rightarrow> string \<Rightarrow> Request \<Rightarrow> Response \<Rightarrow> AppState \<Rightarrow> AppState" where
  "settle J now newId rq resp st =
     (case resp of
        Failed msg \<Rightarrow>
          (let errorMsg = \<lparr>role = Model, text_m = ''**System Error:** '' @ msg,
                            specialist = None, timestamp = now\<rparr>
           in (updateFileContent (chatId rq) (Some (stringify J (newHistory rq @ [errorMsg]))) st)
                \<lparr>isProcessing := False\<rparr>)
      | Answered reply \<Rightarrow>
          (let specialistName =
                 (case specMatch reply of None \<Rightarrow> ''The Liaison'' | Some s \<Rightarrow> remove1 CHR '':'' s);
               st1 = st\<lparr>currentSpecialist := specialistName\<rparr>;
               (displayResponse, st2) =
                 (case jsonMatch reply of
                    None \<Rightarrow> (fullText reply, st1)
                  | Some (stripped, None) \<Rightarrow> (fullText reply, st1)
                  | Some (stripped, Some a) \<Rightarrow>
                      (trim stripped, dispatchAction (sentFiles rq) newId a st1));
               modelMsg = \<lparr>role = Model, text_m = displayResponse,
                            specialist = Some specialistName, timestamp = now\<rparr>
           in (updateFileContent (chatId rq) (Some (stringify J (newHistory rq @ [modelMsg]))) st2)
                \<lparr>isProcessing := False\<rparr>))"

text \<open>
  The two ways to send: the \<open>onKeyDown\<close> of the chat input, and the click on the RUN
  button, which is \<open>disabled\<close> while \<open>isProcessing\<close>.
\<close>

definition onKeyDown :: "JSON \<Rightarrow> int \<Rightarrow> string \<Rightarrow> World \<Rightarrow> error option \<times> World" where
  "onKeyDown J now key w = (if key = ''Enter'' then handleSendMessage J now w else (None, w))"

definition onClickRun :: "JSON \<Rightarrow> int \<Rightarrow> World \<Rightarrow> error option \<times> World" where
  "onClickRun J now w = (if isProcessing (app w) then (None, w) else handleSendMessage J now w)"

text \<open>The \<open>onChange\<close> of the chat input.\<close>

definition setChatInput :: "string \<Rightarrow> World \<Rightarrow> World" where
  "setChatInput s w = w\<lparr>app := (app w)\<lparr>chatInput := s\<rparr>\<rparr>"

text \<open>The file of a given id, as \<open>files.find\<close> reads it.\<close>

definition fileById :: "string \<Rightarrow> AppState \<Rightarrow> VirtualFile option" where
  "fileById i st = find (\<lambda>f. id_f f = i) (files st)"

subsection \<open>States and actions of the examples\<close>

text \<open>
  The workspace after two documents were created and the tab of the first was selected:
  three tabs, the middle one active.
\<close>

definition threeTabs :: AppState where
  "threeTabs =
     openTab ''a''
       (snd (createNewFile ''b'' (Some Doc) None None
          (snd (createNewFile ''a'' (Some Doc) None None (initialState ''k'')))))"

definition st_doc :: AppState where
  "st_doc = snd (createNewFile ''a'' (Some Doc) None None (initialState ''k''))"

definition st_sheet :: AppState where
  "st_sheet = snd (createNewFile ''b'' (Some Sheet) None None (initialState ''k''))"

definition act_absent :: ActionData where
  "act_absent = \<lparr>action = Some ''update_file'', file_id = Some ''zz'', file_type = None,
                 file_name = Some ''Missing.doc'', content_a = Some ''X''\<rparr>"

definition act_by_id :: ActionData where
  "act_by_id = \<lparr>action = Some ''update_file'', file_id = Some ''a'', file_type = None,
                 file_name = Some ''Missing.doc'', content_a = Some ''X''\<rparr>"

definition act_clash :: ActionData where
  "act_clash = \<lparr>action = Some ''update_file'', file_id = Some ''1'', file_type = None,
                 file_name = Some ''Untitled.doc'', content_a = Some ''X''\<rparr>"

definition act_sheet :: ActionData where
  "act_sheet = \<lparr>action = Some ''update_file'', file_id = None, file_type = None,
                 file_name = Some ''Untitled.csv'', content_a = Some ''x,y''\<rparr>"

definition act_sheet_clash :: ActionData where
  "act_sheet_clash = \<lparr>action = Some ''update_file'', file_id = Some ''1'', file_type = None,
                 file_name = Some ''Untitled.csv'', content_a = Some ''x,y''\<rparr>"

definition act_no_content :: ActionData where
  "act_no_content = \<lparr>action = Some ''update_file'', file_id = None, file_type = None,
                 file_name = Some ''Untitled.doc'', content_a = None\<rparr>"

text \<open>
  Three messages and the text \<open>JSON.stringify\<close> gives for the histories made of them.
  \<open>exampleJSON\<close> agrees with the platform's \<open>JSON\<close> on these histories and texts,
  the only ones the examples read.
\<close>

definition msgA :: Message where
  "msgA = \<lparr>role = User, text_m = ''a'', specialist = None, timestamp = 1\<rparr>"

definition msgB :: Message where
  "msgB = \<lparr>role = User, text_m = ''b'', specialist = None, timestamp = 3\<rparr>"

definition msgErr :: Message where
  "msgErr = \<lparr>role = Model, text_m = ''**System Error:** x'', specialist = None, timestamp = 2\<rparr>"

definition quoted :: "string \<Rightarrow> string" where
  "quoted s = CHR 0x22 # s @ [CHR 0x22]"

definition jsonUser :: "string \<Rightarrow> string \<Rightarrow> string" where
  "jsonUser t n =
     ''{'' @ quoted ''role'' @ '':'' @ quoted ''user'' @ '','' @ quoted ''text'' @ '':'' @ quoted t
     @ '','' @ quoted ''timestamp'' @ '':'' @ n @ ''}''"

definition jsonModel :: "string \<Rightarrow> string \<Rightarrow> string" where
  "jsonModel t n =
     ''{'' @ quoted ''role'' @ '':'' @ quoted ''model'' @ '','' @ quoted ''text'' @ '':'' @ quoted t
     @ '','' @ quoted ''timestamp'' @ '':'' @ n @ ''}''"

definition jsonA :: string where
  "jsonA = ''['' @ jsonUser ''a'' ''1'' @ '']''"

definition jsonAB :: string where
  "jsonAB = ''['' @ jsonUser ''a'' ''1'' @ '','' @ jsonUser ''b'' ''3'' @ '']''"

definition jsonAErr :: string where
  "jsonAErr = ''['' @ jsonUser ''a'' ''1'' @ '','' @ jsonModel ''**System Error:** x'' ''2'' @ '']''"

definition exampleJSON :: JSON where
  "exampleJSON =
     \<lparr>parse = (\<lambda>s. if s = ''[]'' then Some [] else if s = jsonA then Some [msgA] else None),
      stringify = (\<lambda>h. if h = [] then ''[]'' else if h = [msgA] then jsonA
                        else if h = [msgA, msgB] then jsonAB
                        else if h = [msgA, msgErr] then jsonAErr else ''null'')\<rparr>"

text \<open>
  The workspace with a sheet, later: the chat history has grown and a document was
  created.
\<close>

definition st_sheet_later :: AppState where
  "st_sheet_later =
     snd (createNewFile ''c'' (Some Doc) None None (updateFileContent ''1'' (Some jsonA) st_sheet))"

text \<open>
  The first world with an API key; the world after \<open>a\<close> was typed and sent with the
  Enter key at time 1; that world after \<open>b\<close> was typed; the first world without an API
  key, after \<open>a\<close> was typed.
\<close>

definition world0 :: World where
  "world0 = \<lparr>app = initialState ''k'', outstanding = []\<rparr>"

definition world1 :: World where
  "world1 = snd (onKeyDown exampleJSON 1 ''Enter'' (setChatInput ''a'' world0))"

definition world2 :: World where
  "world2 = setChatInput ''b'' world1"

definition world_nokey :: World where
  "world_nokey = setChatInput ''a'' \<lparr>app = initialState [], outstanding = []\<rparr>"

section \<open>Properties\<close>

subsection \<open>Strings: split and join\<close>

lemma split_not_Nil: "split c s \<noteq> []"
  by (induction s) (auto split: list.splits)

lemma length_split: "length (split c s) = Suc (count_list s c)"
  by (induction s) (auto split: list.splits simp: split_not_Nil)

lemma split_subset: "x \<in> set (split c s) \<Longrightarrow> set x \<subseteq> set s"
proof (induction s arbitrary: x)
  case Nil
  then show ?case by simp
next
  case (Cons a s)
  show ?case
  proof (cases "a = c")
    case True
    with Cons show ?thesis by auto
  next
    case False
    obtain w ws where sp: "split c s = w # ws"
      using split_not_Nil [of c s] by (cases "split c s") auto
    with False Cons.prems have "x = a # w \<or> x \<in> set ws" by simp
    then show ?thesis
    proof
      assume "x = a # w"
      moreover have "set w \<subseteq> set s" using Cons.IH [of w] sp by simp
      ultimately show ?thesis by auto
    next
      assume "x \<in> set ws"
      then have "set x \<subseteq> set s" using Cons.IH [of x] sp by simp
      then show ?thesis by auto
    qed
  qed
qed

lemma split_no_sep: "x \<in> set (split c s) \<Longrightarrow> c \<notin> set x"
  by (induction s arbitrary: x) (auto split: list.splits if_splits)

lemma split_append_sep:
  "c \<notin> set x \<Longrightarrow> split c (x @ c # s) = x # split c s"
  by (induction x) (auto split: list.splits simp: split_not_Nil)

lemma split_no_occurrence: "c \<notin> set x \<Longrightarrow> split c x = [x]"
  by (induction x) (auto split: list.splits)

lemma split_join:
  "xs \<noteq> [] \<Longrightarrow> \<forall>x\<in>set xs. c \<notin> set x \<Longrightarrow> split c (join [c] xs) = xs"
proof (induction "[c]" xs rule: join.induct)
  case 1 then show ?case by simp
next
  case (2 x) then show ?case by (simp add: split_no_occurrence)
next
  case (3 x y ys) then show ?case by (simp add: split_append_sep)
qed

lemma join_Cons_Cons: "join sep ((a # x) # xs) = a # join sep (x # xs)"
  by (cases xs) simp_all

lemma join_split: "join [c] (split c s) = s"
  by (induction s) (auto split: list.splits simp: split_not_Nil join_Cons_Cons)

lemma sep_in_join: "c \<in> set (join [c] (x # xs)) \<longleftrightarrow> c \<in> set x \<or> xs \<noteq> []"
  by (cases xs) auto

lemma set_join_subset: "set (join sep xs) \<subseteq> set sep \<union> \<Union> (set ` set xs)"
  by (induction sep xs rule: join.induct) auto

lemma count_join: "xs \<noteq> [] \<Longrightarrow> length xs \<le> Suc (count_list (join [c] xs) c)"
  by (induction "[c]" xs rule: join.induct) auto

lemma mem_iff_count: "c \<in> set s \<longleftrightarrow> 0 < count_list s c"
  by (induction s) auto

lemma tl_split_empty: "tl (split c s) = [] \<longleftrightarrow> c \<notin> set s"
proof -
  have "tl (split c s) = [] \<longleftrightarrow> length (split c s) = 1"
    using split_not_Nil [of c s] by (cases "split c s") auto
  then show ?thesis by (simp add: length_split mem_iff_count)
qed

subsection \<open>Tabs\<close>

lemma js_index_last:
  "js_index xs (int (length xs) - 1) = (if xs = [] then None else Some (last xs))"
  by (cases xs rule: rev_cases) (simp_all add: js_index_def)

lemma or_else_empty: "or_else (Some s) [] = s"
  by (simp add: or_else_def truthy_def)

lemma threeTabs_tabs: "openTabIds threeTabs = [''1'', ''a'', ''b''] \<and> activeTabId threeTabs = ''a''"
  by (simp add: threeTabs_def openTab_def createNewFile_def initialState_def Let_def)

text \<open>
  C1, as amended. Closing the tab that is active removes every occurrence of its id from
  the open-tab sequence and makes the last tab of the remaining sequence the active one,
  or leaves no active tab (the empty id) when nothing remains.
\<close>

theorem closeTab_active_selects_last:
  assumes "activeTabId st = i"
  shows "openTabIds (closeTab i st) = filter (\<lambda>tid. tid \<noteq> i) (openTabIds st) \<and>
         activeTabId (closeTab i st) =
           (if filter (\<lambda>tid. tid \<noteq> i) (openTabIds st) = [] then []
            else last (filter (\<lambda>tid. tid \<noteq> i) (openTabIds st)))"
  using assms by (simp add: closeTab_def Let_def js_index_last or_else_def truthy_def)

theorem closeTab_active_selects_last_witness:
  "activeTabId threeTabs = ''a'' \<and> openTabIds (closeTab ''a'' threeTabs) = [''1'', ''b''] \<and>
   activeTabId (closeTab ''a'' threeTabs) = ''b''"
  using closeTab_active_selects_last [of threeTabs "''a''"] threeTabs_tabs by simp

text \<open>
  With three tabs open and the middle one active, closing it selects the tab after it,
  not the tab before it.
\<close>

theorem closeTab_preceding_counterexample:
  "activeTabId threeTabs = ''a'' \<and> ''a'' \<in> set (openTabIds threeTabs) \<and>
   precedingTab_spec ''a'' (openTabIds threeTabs) = Some ''1'' \<and>
   activeTabId (closeTab ''a'' threeTabs) = ''b'' \<and>
   Some (activeTabId (closeTab ''a'' threeTabs)) \<noteq> precedingTab_spec ''a'' (openTabIds threeTabs)"
  by (simp add: threeTabs_tabs precedingTab_spec_def closeTab_def Let_def js_index_def or_else_def truthy_def)

subsection \<open>Creating a file\<close>

text \<open>
  C7, as amended. When the id drawn is the id of no file of the file set, creating a
  file returns that id, appends one new file with that id and the requested type to the
  file set, so that exactly one file has the id and distinct ids stay distinct, appends
  the id to the open-tab sequence, and makes it the active tab.
\<close>

theorem createNewFile_fresh_id:
  assumes "newId \<notin> id_f ` set (files st)"
  shows "fst (createNewFile newId ty nm cont st) = newId \<and>
         (\<exists>f. files (snd (createNewFile newId ty nm cont st)) = files st @ [f] \<and>
              id_f f = newId \<and> type f = ty) \<and>
         length (filter (\<lambda>f. id_f f = newId) (files (snd (createNewFile newId ty nm cont st)))) = 1 \<and>
         (distinct (map id_f (files st)) \<longrightarrow>
            distinct (map id_f (files (snd (createNewFile newId ty nm cont st))))) \<and>
         openTabIds (snd (createNewFile newId ty nm cont st)) = openTabIds st @ [newId] \<and>
         activeTabId (snd (createNewFile newId ty nm cont st)) = newId"
proof -
  have "filter (\<lambda>f. id_f f = newId) (files st) = []"
    using assms by (auto simp: filter_empty_conv)
  then show ?thesis
    using assms by (simp add: createNewFile_def Let_def)
qed

theorem createNewFile_fresh_id_witness:
  "''a'' \<notin> id_f ` set (files (initialState ''k'')) \<and>
   map id_f (files (snd (createNewFile ''a'' (Some Sheet) None None (initialState ''k'')))) = [''1'', ''a''] \<and>
   openTabIds (snd (createNewFile ''a'' (Some Sheet) None None (initialState ''k''))) = [''1'', ''a''] \<and>
   activeTabId (snd (createNewFile ''a'' (Some Sheet) None None (initialState ''k''))) = ''a''"
  using createNewFile_fresh_id [of "''a''" "initialState ''k''" "Some Sheet" None None]
  by (auto simp: initialState_def)

text \<open>
  Nothing compares the id drawn with the ids in use: the same draw twice gives two files
  with one id.
\<close>

theorem createNewFile_repeated_draw_counterexample:
  "\<not> distinct (map id_f (files (snd (createNewFile ''i'' (Some Doc) None None
        (snd (createNewFile ''i'' (Some Sheet) None None (initialState ''k'')))))))"
  by (simp add: createNewFile_def Let_def initialState_def)

subsection \<open>The slide editor\<close>

lemma slideTitleChange_eq: "slideTitleChange cont v = join [nl] (v # tl (split nl cont))"
  using split_not_Nil [of nl cont]
  by (cases "split nl cont") (simp_all add: slideTitleChange_def js_set_def)

text \<open>
  C4, as amended. An edit of the body field stores the first line of the previous
  content (the title line), a newline and the body entered: the content has a newline
  between the title line and the body, and its lines are the old title line followed by
  the lines of the new body. An edit of the title field replaces the first line and
  keeps the others: the content stored is the new title joined by newlines with the old
  remaining lines, when the new title has no newline its lines are the new title
  followed by exactly the old remaining lines, and it has a newline exactly when the
  content before the edit had one or the new title has one.
\<close>

theorem slide_edit_newline:
  "\<exists>title body. split nl cont = title # body \<and>
      slideBodyChange cont rest = title @ [nl] @ rest \<and>
      split nl (slideBodyChange cont rest) = title # split nl rest \<and>
      slideTitleChange cont v = join [nl] (v # body) \<and>
      (nl \<notin> set v \<longrightarrow> split nl (slideTitleChange cont v) = v # body) \<and>
      nl \<in> set (slideBodyChange cont rest) \<and>
      (nl \<in> set (slideTitleChange cont v) \<longleftrightarrow> nl \<in> set cont \<or> nl \<in> set v)"
proof -
  obtain title body where sp: "split nl cont = title # body"
    using split_not_Nil [of nl cont] by (cases "split nl cont") auto
  have clean: "nl \<notin> set x" if "x \<in> set (title # body)" for x
    using that split_no_sep [of x nl cont] by (simp add: sp)
  have b: "slideBodyChange cont rest = title @ [nl] @ rest"
    by (simp add: slideBodyChange_def js_index_def sp)
  have b_lines: "split nl (slideBodyChange cont rest) = title # split nl rest"
    using clean [of title] by (simp add: b split_append_sep)
  have t: "slideTitleChange cont v = join [nl] (v # body)"
    by (simp add: slideTitleChange_eq sp)
  have t_lines: "split nl (slideTitleChange cont v) = v # body" if "nl \<notin> set v"
    unfolding t using that clean by (intro split_join) auto
  have b_nl: "nl \<in> set (slideBodyChange cont rest)"
    by (simp add: b)
  have t_nl: "nl \<in> set (slideTitleChange cont v) \<longleftrightarrow> nl \<in> set cont \<or> nl \<in> set v"
    unfolding slideTitleChange_eq sep_in_join using tl_split_empty [of nl cont] by auto
  show ?thesis
    using sp b b_lines t t_lines b_nl t_nl by blast
qed

theorem slide_edit_newline_witness:
  "nl \<notin> set ''New'' \<and>
   split nl (''Title'' @ [nl] @ ''Sub'') = [''Title'', ''Sub''] \<and>
   split nl (slideTitleChange (''Title'' @ [nl] @ ''Sub'') ''New'') = [''New'', ''Sub''] \<and>
   slideBodyChange (''Title'' @ [nl] @ ''Sub'') ''Body'' = ''Title'' @ [nl] @ ''Body''"
  using slide_edit_newline [of "''Title'' @ [nl] @ ''Sub''" "''Body''" "''New''"]
  by auto

text \<open>
  A slide whose content is a single line stays a single line when its title is edited.
\<close>

theorem slide_title_edit_counterexample:
  "nl \<notin> set (slideTitleChange ''Title'' ''New'')"
  by (simp add: slideTitleChange_def js_set_def)

subsection \<open>The sheet editor\<close>

lemma padRows_eq: "padRows rows = rows @ replicate (50 - length rows) (replicate 10 [])"
proof (induction rows rule: padRows.induct)
  case (1 rows)
  show ?case
  proof (cases "length rows < 50")
    case True
    then have step: "50 - length rows = Suc (50 - Suc (length rows))" by simp
    have "padRows rows = padRows (rows @ [replicate 10 []])"
      using True by (subst padRows.simps) simp
    also have "\<dots> = (rows @ [replicate 10 []]) @
        replicate (50 - length (rows @ [replicate 10 []])) (replicate 10 [])"
      using 1 True by simp
    also have "\<dots> = rows @ replicate (50 - length rows) (replicate 10 [])"
      unfolding step by simp
    finally show ?thesis .
  next
    case False
    then show ?thesis by (subst padRows.simps) simp
  qed
qed

lemma padRow_eq: "padRow r = r @ replicate (20 - length r) []"
proof (induction r rule: padRow.induct)
  case (1 r)
  show ?case
  proof (cases "length r < 20")
    case True
    then have step: "20 - length r = Suc (20 - Suc (length r))" by simp
    have "padRow r = padRow (r @ [[]])"
      using True by (subst padRow.simps) simp
    also have "\<dots> = (r @ [[]]) @ replicate (20 - length (r @ [[]])) []"
      using 1 True by simp
    also have "\<dots> = r @ replicate (20 - length r) []"
      unfolding step by simp
    finally show ?thesis .
  next
    case False
    then show ?thesis by (subst padRow.simps) simp
  qed
qed

lemma length_ensureGrid: "50 \<le> length (ensureGrid rows)"
proof -
  have "length (ensureGrid rows) = length rows + (50 - length rows)"
    by (simp only: ensureGrid_def padRows_eq length_map length_append length_replicate)
  then show ?thesis by arith
qed

lemma length_ensureGrid_row:
  assumes "row \<in> set (ensureGrid rows)"
  shows "20 \<le> length row"
proof -
  from assms obtain r0 where "row = padRow r0"
    unfolding ensureGrid_def by auto
  then have "length row = length r0 + (20 - length r0)"
    by (simp only: padRow_eq length_append length_replicate)
  then show ?thesis by arith
qed

lemma ensureGrid_rows:
  assumes "row \<in> set (ensureGrid rows)"
  obtains r0 where "r0 \<in> set rows \<or> r0 = replicate 10 []" and "row = r0 @ replicate (20 - length r0) []"
proof -
  from assms obtain r0 where in_pad: "r0 \<in> set (padRows rows)" and row: "row = padRow r0"
    unfolding ensureGrid_def by auto
  have "set (padRows rows) \<subseteq> set rows \<union> {replicate 10 []}"
    unfolding padRows_eq set_append by (rule Un_mono [OF subset_refl]) (auto simp: set_replicate_conv_if)
  with in_pad have "r0 \<in> set rows \<or> r0 = replicate 10 []" by blast
  moreover have "row = r0 @ replicate (20 - length r0) []"
    unfolding row by (rule padRow_eq)
  ultimately show ?thesis by (rule that)
qed

lemma sheetRows_cells:
  assumes "row \<in> set (sheetRows cont)" and "cell \<in> set row"
  shows "nl \<notin> set cell \<and> CHR '','' \<notin> set cell"
proof -
  from assms obtain x where x: "x \<in> set (split nl cont)" and row: "row = split CHR '','' x"
    by (auto simp: sheetRows_def)
  have "nl \<notin> set x" using x by (rule split_no_sep)
  moreover have "set cell \<subseteq> set x" using assms(2) row split_subset by blast
  moreover have "CHR '','' \<notin> set cell" using assms(2) row split_no_sep by blast
  ultimately show ?thesis by blast
qed

lemma ensureGrid_cells:
  assumes "row \<in> set (ensureGrid (sheetRows cont))" and "cell \<in> set row"
  shows "nl \<notin> set cell \<and> CHR '','' \<notin> set cell"
proof -
  from assms(1) obtain r0 where r0: "r0 \<in> set (sheetRows cont) \<or> r0 = replicate 10 []"
    and row: "row = r0 @ replicate (20 - length r0) []"
    by (rule ensureGrid_rows)
  from assms(2) row have "cell \<in> set r0 \<or> cell = []"
    by (auto simp: set_replicate_conv_if split: if_splits)
  then show ?thesis
  proof
    assume c: "cell \<in> set r0"
    from r0 show ?thesis
    proof
      assume "r0 \<in> set (sheetRows cont)"
      then show ?thesis using c by (rule sheetRows_cells)
    next
      assume "r0 = replicate 10 []"
      with c show ?thesis by (simp add: set_replicate_conv_if)
    qed
  next
    assume "cell = []"
    then show ?thesis by simp
  qed
qed

lemma sheetRows_serialised:
  assumes "g \<noteq> []"
    and rows: "\<And>row. row \<in> set g \<Longrightarrow> row \<noteq> []"
    and cells: "\<And>row cell. row \<in> set g \<Longrightarrow> cell \<in> set row \<Longrightarrow> nl \<notin> set cell \<and> CHR '','' \<notin> set cell"
  shows "sheetRows (join [nl] (map (join '','') g)) = g"
proof -
  have no_nl: "nl \<notin> set (join '','' row)" if "row \<in> set g" for row
    using set_join_subset [of "'',''" row] cells [OF that] by auto
  have "split nl (join [nl] (map (join '','') g)) = map (join '','') g"
    using assms(1) no_nl by (intro split_join) auto
  moreover have "map (split CHR '','') (map (join '','') g) = g"
  proof -
    have "split CHR '','' (join '','' row) = row" if "row \<in> set g" for row
      using rows [OF that] cells [OF that] by (intro split_join) auto
    then show ?thesis by (simp add: map_idI)
  qed
  ultimately show ?thesis by (simp add: sheetRows_def)
qed

text \<open>
  C3, as amended. An edit of any cell shown by the sheet editor stores the whole
  display grid: the content stored is the serialisation of the grid padded to at least
  50 rows and at least 20 columns in every row, with the edited cell replaced. It has at
  least 50 lines, and when the value entered has no comma and no newline, splitting it
  gives back that padded grid.
\<close>

theorem handleCellChange_persists_padded_grid:
  assumes grid: "grid = ensureGrid (sheetRows cont)"
    and r: "r < length grid" and c: "c < length (grid ! r)"
  shows "\<exists>s. handleCellChange cont r c val = Inr s \<and>
           s = join [nl] (map (join '','') (grid[r := (grid ! r)[c := val]])) \<and>
           50 \<le> length (split nl s) \<and>
           (nl \<notin> set val \<and> CHR '','' \<notin> set val \<longrightarrow>
              sheetRows s = grid[r := (grid ! r)[c := val]] \<and>
              50 \<le> length (sheetRows s) \<and> (\<forall>row\<in>set (sheetRows s). 20 \<le> length row))"
proof -
  define g where "g = grid[r := (grid ! r)[c := val]]"
  define s where "s = join [nl] (map (join '','') g)"
  have len: "50 \<le> length g" using length_ensureGrid [of "sheetRows cont"] by (simp add: g_def grid)
  have row_in: "row \<in> set grid \<or> row = (grid ! r)[c := val]" if "row \<in> set g" for row
    using that set_update_subset_insert [of grid r] by (auto simp: g_def)
  have row_len: "20 \<le> length row" if "row \<in> set g" for row
  proof -
    have "20 \<le> length (grid ! r)"
      using r length_ensureGrid_row [of "grid ! r" "sheetRows cont"] by (simp add: grid)
    then show ?thesis
      using row_in [OF that] length_ensureGrid_row [of row "sheetRows cont"] by (auto simp: grid)
  qed
  have eq: "handleCellChange cont r c val = Inr s"
    using r c by (simp add: handleCellChange_def Let_def grid s_def g_def js_set_def)
  have lines: "50 \<le> length (split nl s)"
  proof -
    have "map (join '','') g \<noteq> []" using len by auto
    then have "length (map (join '','') g) \<le> Suc (count_list s nl)"
      unfolding s_def by (rule count_join)
    then show ?thesis using len by (simp add: length_split)
  qed
  have again: "sheetRows s = g" if clean: "nl \<notin> set val \<and> CHR '','' \<notin> set val"
    unfolding s_def
  proof (rule sheetRows_serialised)
    show "g \<noteq> []" using len by auto
  next
    fix row assume "row \<in> set g"
    then show "row \<noteq> []" using row_len by fastforce
  next
    fix row cell assume row: "row \<in> set g" and cell: "cell \<in> set row"
    from row_in [OF row] show "nl \<notin> set cell \<and> CHR '','' \<notin> set cell"
    proof
      assume "row \<in> set grid"
      then show ?thesis using cell ensureGrid_cells by (simp add: grid)
    next
      assume "row = (grid ! r)[c := val]"
      then have "cell \<in> set (grid ! r) \<or> cell = val"
        using cell set_update_subset_insert [of "grid ! r" c val] by auto
      moreover have "grid ! r \<in> set grid" using r by simp
      ultimately show ?thesis using clean ensureGrid_cells [of "grid ! r" cont] by (auto simp: grid)
    qed
  qed
  show ?thesis
    using eq lines again len row_len unfolding s_def [symmetric] g_def [symmetric]
    by (intro exI [of _ s]) (auto simp: s_def)
qed

theorem handleCellChange_persists_padded_grid_witness:
  "0 < length (ensureGrid (sheetRows ''a'')) \<and> 0 < length (ensureGrid (sheetRows ''a'') ! 0) \<and>
   (\<exists>s. handleCellChange ''a'' 0 0 ''b'' = Inr s \<and> 50 \<le> length (split nl s) \<and>
        50 \<le> length (sheetRows s) \<and> list_all (\<lambda>row. 20 \<le> length row) (sheetRows s))"
proof -
  define grid where "grid = ensureGrid (sheetRows ''a'')"
  have "50 \<le> length grid"
    unfolding grid_def by (rule length_ensureGrid)
  then have r: "0 < length grid" by linarith
  then have "grid ! 0 \<in> set grid" by simp
  then have "20 \<le> length (grid ! 0)"
    unfolding grid_def by (rule length_ensureGrid_row)
  then have c: "0 < length (grid ! 0)" by linarith
  show ?thesis
    using handleCellChange_persists_padded_grid [OF grid_def r c, of "''b''"] r c
    by (auto simp: grid_def list_all_iff)
qed

text \<open>
  A sheet of one cell, edited in that cell, is stored as 50 rows of 20 columns.
\<close>

theorem handleCellChange_growth_counterexample:
  "sheetRows ''a'' = [[''a'']] \<and>
   (case handleCellChange ''a'' 0 0 ''b'' of
      Inl e \<Rightarrow> False
    | Inr s \<Rightarrow> length (sheetRows s) = 50 \<and> list_all (\<lambda>row. length row = 20) (sheetRows s))"
  by code_simp

subsection \<open>The action dispatcher\<close>

lemma find_none_list_all: "list_all (\<lambda>x. \<not> P x) xs \<Longrightarrow> find P xs = None"
  by (induction xs) auto

lemma find_first: "list_all (\<lambda>x. \<not> P x) pre \<Longrightarrow> P t \<Longrightarrow> find P (pre @ t # post) = Some t"
  by (induction pre) auto

lemma st_doc_files:
  "files st_doc = [\<lparr>id_f = ''1'', name = ''MWI_Chat'', type = Some Chat, content = Some ''[]''\<rparr>,
                   \<lparr>id_f = ''a'', name = ''Untitled.doc'', type = Some Doc, content = Some []\<rparr>]"
  by (simp add: st_doc_def createNewFile_def initialState_def Let_def or_else_def truthy_def extensions_def)

lemma st_sheet_files:
  "files st_sheet = [\<lparr>id_f = ''1'', name = ''MWI_Chat'', type = Some Chat, content = Some ''[]''\<rparr>,
     \<lparr>id_f = ''b'', name = ''Untitled.csv'', type = Some Sheet,
      content = Some (''Header 1,Header 2,Header 3'' @ [nl] @ ''Data 1,Data 2,Data 3'')\<rparr>]"
  by (simp add: st_sheet_def createNewFile_def initialState_def Let_def or_else_def truthy_def extensions_def)

lemma st_sheet_later_files:
  "files st_sheet_later =
     [\<lparr>id_f = ''1'', name = ''MWI_Chat'', type = Some Chat, content = Some jsonA\<rparr>,
      \<lparr>id_f = ''b'', name = ''Untitled.csv'', type = Some Sheet,
       content = Some (''Header 1,Header 2,Header 3'' @ [nl] @ ''Data 1,Data 2,Data 3'')\<rparr>,
      \<lparr>id_f = ''c'', name = ''Untitled.doc'', type = Some Doc, content = Some []\<rparr>]"
  by (simp add: st_sheet_later_def st_sheet_files createNewFile_def updateFileContent_def Let_def
      or_else_def truthy_def extensions_def)

text \<open>
  C5, as amended. For an \<open>update_file\<close> action the dispatcher takes as target the
  first file, in the order of the file set, whose name is \<open>file_name\<close> or whose id is
  \<open>file_id\<close>. When no file matches by name this is the file the name-first rule
  gives, the first one matching by id. When no file matches by name or by id the action
  is dropped and the state is unchanged.
\<close>

theorem update_file_target_is_first_match:
  assumes "action a = Some ''update_file''"
  shows "(list_all (\<lambda>f. \<not> (Some (name f) = file_name a \<or> Some (id_f f) = file_id a)) fs \<longrightarrow>
            findTarget fs a = None \<and> dispatchAction fs newId a st = st) \<and>
         (fs = pre @ t # post \<and>
          list_all (\<lambda>f. \<not> (Some (name f) = file_name a \<or> Some (id_f f) = file_id a)) pre \<and>
          (Some (name t) = file_name a \<or> Some (id_f t) = file_id a) \<longrightarrow>
            findTarget fs a = Some t \<and>
            dispatchAction fs newId a st = updateFileContent (id_f t) (content_a a) st) \<and>
         (list_all (\<lambda>f. Some (name f) \<noteq> file_name a) fs \<longrightarrow>
            findTarget fs a = findTarget_spec fs a)"
proof (intro conjI impI)
  assume none: "list_all (\<lambda>f. \<not> (Some (name f) = file_name a \<or> Some (id_f f) = file_id a)) fs"
  then show "findTarget fs a = None"
    unfolding findTarget_def by (rule find_none_list_all)
  then show "dispatchAction fs newId a st = st"
    using assms by (simp add: dispatchAction_def)
next
  assume h: "fs = pre @ t # post \<and>
          list_all (\<lambda>f. \<not> (Some (name f) = file_name a \<or> Some (id_f f) = file_id a)) pre \<and>
          (Some (name t) = file_name a \<or> Some (id_f t) = file_id a)"
  then show t: "findTarget fs a = Some t"
    unfolding findTarget_def by (simp add: find_first)
  then show "dispatchAction fs newId a st = updateFileContent (id_f t) (content_a a) st"
    using assms by (simp add: dispatchAction_def)
next
  assume nm: "list_all (\<lambda>f. Some (name f) \<noteq> file_name a) fs"
  then have "find (\<lambda>f. Some (name f) = file_name a) fs = None"
    by (intro find_none_list_all) simp
  moreover from nm have "find (\<lambda>f. Some (name f) = file_name a \<or> Some (id_f f) = file_id a) fs =
      find (\<lambda>f. Some (id_f f) = file_id a) fs"
    by (induction fs) auto
  ultimately show "findTarget fs a = findTarget_spec fs a"
    by (simp add: findTarget_def findTarget_spec_def)
qed

theorem update_file_target_is_first_match_witness:
  "dispatchAction (files st_doc) ''n'' act_absent st_doc = st_doc \<and>
   map content (files (dispatchAction (files st_doc) ''n'' act_by_id st_doc)) = [Some ''[]'', Some ''X'']"
proof -
  have a1: "action act_absent = Some ''update_file''" and a2: "action act_by_id = Some ''update_file''"
    by (simp_all add: act_absent_def act_by_id_def)
  have none: "list_all (\<lambda>f. \<not> (Some (name f) = file_name act_absent \<or> Some (id_f f) = file_id act_absent))
      (files st_doc)"
    by (simp add: st_doc_files act_absent_def)
  have first: "files st_doc = [hd (files st_doc)] @ (files st_doc ! 1) # [] \<and>
     list_all (\<lambda>f. \<not> (Some (name f) = file_name act_by_id \<or> Some (id_f f) = file_id act_by_id))
       [hd (files st_doc)] \<and>
     (Some (name (files st_doc ! 1)) = file_name act_by_id \<or>
      Some (id_f (files st_doc ! 1)) = file_id act_by_id)"
    by (simp add: st_doc_files act_by_id_def)
  from update_file_target_is_first_match [OF a1, of "files st_doc" "''n''" st_doc] none
  have "dispatchAction (files st_doc) ''n'' act_absent st_doc = st_doc" by simp
  moreover from update_file_target_is_first_match
      [OF a2, of "files st_doc" "''n''" st_doc "[hd (files st_doc)]" "files st_doc ! 1" "[]"] first
  have "dispatchAction (files st_doc) ''n'' act_by_id st_doc =
        updateFileContent (id_f (files st_doc ! 1)) (content_a act_by_id) st_doc" by blast
  then have "map content (files (dispatchAction (files st_doc) ''n'' act_by_id st_doc)) =
      [Some ''[]'', Some ''X'']"
    by (simp add: updateFileContent_def st_doc_files act_by_id_def)
  ultimately show ?thesis by simp
qed

text \<open>
  A file matching by id that stands before the file matching by name is the one chosen.
\<close>

theorem update_file_name_first_counterexample:
  "map_option id_f (findTarget_spec (files st_doc) act_clash) = Some ''a'' \<and>
   map_option id_f (findTarget (files st_doc) act_clash) = Some ''1''"
  by (simp add: st_doc_files act_clash_def findTarget_def findTarget_spec_def)

text \<open>
  C8, as amended. The target is looked up in the files captured when the message was
  sent, and the update goes to the current files. For an \<open>update_file\<close> action whose
  \<open>file_name\<close> is the name of a captured file that no captured file before it matches
  by name or by id, and whose id exactly one current file has, the dispatch replaces the
  content of that current file with the content of the action, keeps its id, name and
  type, and changes no other file and nothing else of the state.
\<close>

theorem update_file_replaces_content:
  assumes "action a = Some ''update_file''"
    and "fs = pre @ t # post"
    and "Some (name t) = file_name a"
    and "list_all (\<lambda>f. \<not> (Some (name f) = file_name a \<or> Some (id_f f) = file_id a)) pre"
    and "files st = pre' @ t' # post'"
    and "id_f t' = id_f t"
    and "list_all (\<lambda>f. id_f f \<noteq> id_f t) (pre' @ post')"
  shows "dispatchAction fs newId a st =
           st\<lparr>files := pre' @ t'\<lparr>content := content_a a\<rparr> # post'\<rparr> \<and>
         id_f (t'\<lparr>content := content_a a\<rparr>) = id_f t' \<and>
         name (t'\<lparr>content := content_a a\<rparr>) = name t' \<and>
         type (t'\<lparr>content := content_a a\<rparr>) = type t' \<and>
         content (t'\<lparr>content := content_a a\<rparr>) = content_a a"
proof -
  have target: "findTarget fs a = Some t"
    using assms(2-4) by (simp add: findTarget_def find_first)
  have same: "map (\<lambda>f. if id_f f = id_f t then f\<lparr>content := content_a a\<rparr> else f) xs = xs"
    if "list_all (\<lambda>f. id_f f \<noteq> id_f t) xs" for xs
    using that by (induction xs) auto
  have "list_all (\<lambda>f. id_f f \<noteq> id_f t) pre'" and "list_all (\<lambda>f. id_f f \<noteq> id_f t) post'"
    using assms(7) by simp_all
  then have "map (\<lambda>f. if id_f f = id_f t then f\<lparr>content := content_a a\<rparr> else f) (files st) =
      pre' @ t'\<lparr>content := content_a a\<rparr> # post'"
    using assms(5,6) by (simp add: same)
  then show ?thesis
    using assms(1) target by (simp add: dispatchAction_def updateFileContent_def)
qed

theorem update_file_replaces_content_witness:
  "files (dispatchAction (files st_sheet) ''n'' act_sheet st_sheet_later) =
     [\<lparr>id_f = ''1'', name = ''MWI_Chat'', type = Some Chat, content = Some jsonA\<rparr>,
      \<lparr>id_f = ''b'', name = ''Untitled.csv'', type = Some Sheet, content = Some ''x,y''\<rparr>,
      \<lparr>id_f = ''c'', name = ''Untitled.doc'', type = Some Doc, content = Some []\<rparr>]"
  using update_file_replaces_content [of act_sheet "files st_sheet" "[hd (files st_sheet)]"
      "files st_sheet ! 1" "[]" st_sheet_later "[hd (files st_sheet_later)]"
      "files st_sheet_later ! 1" "[files st_sheet_later ! 2]" "''n''"]
  by (simp add: st_sheet_files st_sheet_later_files act_sheet_def)

text \<open>
  When the \<open>file_id\<close> of the action is the id of an earlier file, that file is
  overwritten and the file named by \<open>file_name\<close> keeps its content.
\<close>

theorem update_file_other_file_counterexample:
  "file_name act_sheet_clash = Some ''Untitled.csv'' \<and>
   map name (files st_sheet) = [''MWI_Chat'', ''Untitled.csv''] \<and>
   map content (files (dispatchAction (files st_sheet) ''n'' act_sheet_clash st_sheet)) =
     [Some ''x,y'', Some (''Header 1,Header 2,Header 3'' @ [nl] @ ''Data 1,Data 2,Data 3'')]"
  by (simp add: st_sheet_files act_sheet_clash_def dispatchAction_def findTarget_def updateFileContent_def)

text \<open>
  C9. The claim is that an \<open>update_file\<close> action without a \<open>content\<close> field leaves
  the content of its target a string. The code stores the absent value: the target's
  content becomes \<open>undefined\<close>, and \<open>workspaceContext\<close> of the next send then throws.
\<close>

theorem update_file_absent_content_stores_undefined:
  "files (dispatchAction (files st_doc) newId act_no_content st_doc) =
     [\<lparr>id_f = ''1'', name = ''MWI_Chat'', type = Some Chat, content = Some ''[]''\<rparr>,
      \<lparr>id_f = ''a'', name = ''Untitled.doc'', type = Some Doc, content = None\<rparr>] \<and>
   workspaceContext (files (dispatchAction (files st_doc) newId act_no_content st_doc)) = None"
  by (simp add: st_doc_files act_no_content_def dispatchAction_def findTarget_def updateFileContent_def
      workspaceContext_def workspaceEntry_def)

subsection \<open>Sending a chat message\<close>

lemma find_map_update:
  "find (\<lambda>f. id_f f = i) (map (\<lambda>f. if id_f f = i then f\<lparr>content := c\<rparr> else f) xs) =
   map_option (\<lambda>f. f\<lparr>content := c\<rparr>) (find (\<lambda>f. id_f f = i) xs)"
  by (induction xs) auto

lemma fileById_update_same:
  "fileById i (updateFileContent i c st) = map_option (\<lambda>f. f\<lparr>content := c\<rparr>) (fileById i st)"
  by (simp add: fileById_def updateFileContent_def find_map_update)

lemma find_map_defined:
  "find (\<lambda>f. id_f f = i) (map (\<lambda>f. if id_f f = j then f\<lparr>content := c\<rparr> else f) xs) = None
     \<longleftrightarrow> find (\<lambda>f. id_f f = i) xs = None"
  by (induction xs) auto

lemma fileById_update_defined:
  "fileById i st \<noteq> None \<Longrightarrow> fileById i (updateFileContent j c st) \<noteq> None"
  unfolding fileById_def updateFileContent_def
  by (simp add: find_map_defined del: not_None_eq)

lemma fileById_create_defined:
  "fileById i st \<noteq> None \<Longrightarrow> fileById i (snd (createNewFile newId ty nm cont st)) \<noteq> None"
  by (auto simp: fileById_def createNewFile_def Let_def find_None_iff)

lemma fileById_dispatch_defined:
  assumes "fileById i st \<noteq> None"
  shows "fileById i (dispatchAction fs newId a st) \<noteq> None"
proof (cases "action a = Some ''create_file''")
  case True
  then show ?thesis
    using fileById_create_defined [OF assms] by (simp add: dispatchAction_def)
next
  case False
  show ?thesis
  proof (cases "action a = Some ''update_file''")
    case True
    with False show ?thesis
      using assms fileById_update_defined [OF assms]
      by (cases "findTarget fs a") (simp_all add: dispatchAction_def)
  next
    case False
    with \<open>action a \<noteq> Some ''create_file''\<close> show ?thesis
      using assms by (simp add: dispatchAction_def)
  qed
qed

lemma fileById_more [simp]:
  "fileById i (st\<lparr>isProcessing := b\<rparr>) = fileById i st"
  "fileById i (st\<lparr>currentSpecialist := s\<rparr>) = fileById i st"
  "fileById i (st\<lparr>chatInput := s\<rparr>) = fileById i st"
  by (simp_all add: fileById_def)

lemma settle_chat_content:
  assumes "fileById (chatId rq) st \<noteq> None"
  shows "map_option content (fileById (chatId rq) (settle J now newId rq resp st)) =
     Some (Some (stringify J (newHistory rq @
       [case resp of
          Failed msg \<Rightarrow> \<lparr>role = Model, text_m = ''**System Error:** '' @ msg,
                          specialist = None, timestamp = now\<rparr>
        | Answered reply \<Rightarrow>
            \<lparr>role = Model,
             text_m = (case jsonMatch reply of
                         None \<Rightarrow> fullText reply
                       | Some (stripped, None) \<Rightarrow> fullText reply
                       | Some (stripped, Some a) \<Rightarrow> trim stripped),
             specialist = Some (case specMatch reply of
                                  None \<Rightarrow> ''The Liaison''
                                | Some s \<Rightarrow> remove1 CHR '':'' s),
             timestamp = now\<rparr>])))"
proof -
  have stored: "map_option content (fileById (chatId rq) ((updateFileContent (chatId rq) (Some x) st2)
      \<lparr>isProcessing := False\<rparr>)) = Some (Some x)"
    if "fileById (chatId rq) st2 \<noteq> None" for x st2
    using that by (auto simp: fileById_update_same)
  show ?thesis
  proof (cases resp)
    case (Failed msg)
    then show ?thesis
      using stored [OF assms] by (simp add: settle_def Let_def)
  next
    case (Answered reply)
    define sp where "sp = (case specMatch reply of None \<Rightarrow> ''The Liaison'' | Some s \<Rightarrow> remove1 CHR '':'' s)"
    define st1 where "st1 = st\<lparr>currentSpecialist := sp\<rparr>"
    have st1: "fileById (chatId rq) st1 \<noteq> None"
      using assms by (simp add: st1_def)
    show ?thesis
    proof (cases "jsonMatch reply")
      case None
      then show ?thesis
        using stored [OF st1] by (simp add: settle_def Answered Let_def sp_def st1_def)
    next
      case (Some p)
      obtain stripped parsed where p: "p = (stripped, parsed)" by (cases p)
      show ?thesis
      proof (cases parsed)
        case None
        then show ?thesis
          using stored [OF st1] Some p by (simp add: settle_def Answered Let_def sp_def st1_def)
      next
        case (Some a)
        then show ?thesis
          using stored [OF fileById_dispatch_defined [OF st1, of "sentFiles rq" newId a]]
            \<open>jsonMatch reply = Some p\<close> p
          by (simp add: settle_def Answered Let_def sp_def st1_def)
      qed
    qed
  qed
qed

lemma handleSendMessage_issued:
  assumes "handleSendMessage J now w = (e, w1)" and "outstanding w1 = outstanding w @ [rq]"
  shows "\<exists>f h. activeFile (app w) = Some f \<and> type f = Some Chat \<and>
           Option.bind (content f) (parse J) = Some h \<and> e = None \<and>
           app w1 = (updateFileContent (id_f f)
                       (Some (stringify J (h @ [\<lparr>role = User, text_m = chatInput (app w),
                          specialist = None, timestamp = now\<rparr>]))) (app w))
                    \<lparr>isProcessing := True, chatInput := []\<rparr> \<and>
           chatId rq = id_f f \<and>
           newHistory rq = h @ [\<lparr>role = User, text_m = chatInput (app w),
                          specialist = None, timestamp = now\<rparr>] \<and>
           sentFiles rq = files (app w)"
  using assms
  by (auto simp: handleSendMessage_def Let_def split: if_splits option.splits)

lemma activeFile_fileById: "activeFile st = Some f \<Longrightarrow> fileById (id_f f) st = Some f"
  by (auto simp: activeFile_def fileById_def find_Some_iff)

lemma trim_a: "trim ''a'' = ''a''"
  by (simp add: trim_def isWhiteSpace_def)

lemma trim_b: "trim ''b'' = ''b''"
  by (simp add: trim_def isWhiteSpace_def)

lemma world1_app:
  "app world1 = (initialState ''k'')
     \<lparr>files := [\<lparr>id_f = ''1'', name = ''MWI_Chat'', type = Some Chat, content = Some jsonA\<rparr>],
      isProcessing := True\<rparr>"
  by (simp add: world1_def world0_def onKeyDown_def setChatInput_def handleSendMessage_def Let_def
      initialState_def trim_a truthy_def activeFile_def exampleJSON_def updateFileContent_def
      workspaceContext_def workspaceEntry_def msgA_def)

lemma world1_outstanding: "length (outstanding world1) = 1"
  by (simp add: world1_def world0_def onKeyDown_def setChatInput_def handleSendMessage_def Let_def
      initialState_def trim_a truthy_def activeFile_def exampleJSON_def updateFileContent_def
      workspaceContext_def workspaceEntry_def)

lemma parse_jsonA: "parse exampleJSON jsonA = Some [msgA]"
  by (simp add: exampleJSON_def jsonA_def jsonUser_def quoted_def)

text \<open>
  C6. When a send on the active chat file, whose content is the serialisation of a
  history \<open>h\<close>, issues its request, the content of the chat file becomes the
  serialisation of \<open>h\<close> followed by the user's message \<open>u\<close>, which carries the
  input. When the request settles, in any later state that still holds the file, the
  content becomes the serialisation of \<open>h\<close>, \<open>u\<close> and one message \<open>m\<close> of the model,
  a history of length \<open>length h + 2\<close>: on a failure \<open>m\<close> is the system error text
  followed by the error's message, on a reply it is the text shown (the reply, or the
  reply with its action block removed and trimmed when the block parsed) under the
  specialist's label.
\<close>

theorem send_appends_user_message_and_reply:
  assumes sent: "handleSendMessage J t1 w = (None, w1)"
    and issued: "outstanding w1 = outstanding w @ [rq]"
    and active: "activeFile (app w) = Some f"
    and hist: "Option.bind (content f) (parse J) = Some h"
    and later: "fileById (id_f f) st' \<noteq> None"
    and u: "u = \<lparr>role = User, text_m = chatInput (app w), specialist = None, timestamp = t1\<rparr>"
    and m: "m = (case resp of
          Failed msg \<Rightarrow> \<lparr>role = Model, text_m = ''**System Error:** '' @ msg,
                          specialist = None, timestamp = t2\<rparr>
        | Answered reply \<Rightarrow>
            \<lparr>role = Model,
             text_m = (case jsonMatch reply of
                         None \<Rightarrow> fullText reply
                       | Some (stripped, None) \<Rightarrow> fullText reply
                       | Some (stripped, Some a) \<Rightarrow> trim stripped),
             specialist = Some (case specMatch reply of
                                  None \<Rightarrow> ''The Liaison''
                                | Some s \<Rightarrow> remove1 CHR '':'' s),
             timestamp = t2\<rparr>)"
  shows "map_option content (fileById (id_f f) (app w1)) = Some (Some (stringify J (h @ [u]))) \<and>
         map_option content (fileById (id_f f) (settle J t2 newId rq resp st')) =
           Some (Some (stringify J (h @ [u, m]))) \<and>
         role u = User \<and> role m = Model \<and> length (h @ [u, m]) = length h + 2"
proof -
  from handleSendMessage_issued [OF sent issued] active hist
  have w1: "app w1 = (updateFileContent (id_f f) (Some (stringify J (h @ [u]))) (app w))
                    \<lparr>isProcessing := True, chatInput := []\<rparr>"
    and rq: "chatId rq = id_f f" "newHistory rq = h @ [u]"
    by (auto simp: u)
  have first: "map_option content (fileById (id_f f) (app w1)) = Some (Some (stringify J (h @ [u])))"
    using activeFile_fileById [OF active] by (simp add: w1 fileById_update_same)
  from later have "fileById (chatId rq) st' \<noteq> None" by (simp add: rq)
  from settle_chat_content [OF this, of J t2 newId resp]
  have second: "map_option content (fileById (id_f f) (settle J t2 newId rq resp st')) =
       Some (Some (stringify J (h @ [u, m])))"
    by (simp add: rq m)
  have "role m = Model"
    by (simp add: m split: Response.splits)
  then show ?thesis
    using first second by (simp add: u)
qed

theorem send_appends_user_message_and_reply_witness:
  "handleSendMessage exampleJSON 1 (setChatInput ''a'' world0) = (None, world1) \<and>
   (\<exists>rq. outstanding world1 = outstanding (setChatInput ''a'' world0) @ [rq] \<and>
      map_option content (fileById ''1'' (app world1)) = Some (Some jsonA) \<and>
      map_option content (fileById ''1'' (settle exampleJSON 2 ''n'' rq (Failed ''x'') (app world1))) =
        Some (Some jsonAErr))"
proof -
  let ?w = "setChatInput ''a'' world0"
  let ?f = "\<lparr>id_f = ''1'', name = ''MWI_Chat'', type = Some Chat, content = Some ''[]''\<rparr>"
  have none: "fst (handleSendMessage exampleJSON 1 ?w) = None"
    by (simp add: world0_def setChatInput_def handleSendMessage_def Let_def
      initialState_def trim_a truthy_def activeFile_def exampleJSON_def updateFileContent_def
      workspaceContext_def workspaceEntry_def)
  have sent: "handleSendMessage exampleJSON 1 ?w = (None, world1)"
    using none by (simp add: world1_def onKeyDown_def prod_eq_iff)
  have out0: "outstanding ?w = []" by (simp add: world0_def setChatInput_def)
  obtain rq where issued: "outstanding world1 = outstanding ?w @ [rq]"
    using world1_outstanding by (cases "outstanding world1") (auto simp: out0)
  have active: "activeFile (app ?w) = Some ?f"
    by (simp add: world0_def setChatInput_def activeFile_def initialState_def)
  have hist: "Option.bind (content ?f) (parse exampleJSON) = Some []"
    by (simp add: exampleJSON_def)
  have later: "fileById (id_f ?f) (app world1) \<noteq> None"
    by (simp add: world1_app fileById_def initialState_def)
  have u: "msgA = \<lparr>role = User, text_m = chatInput (app ?w), specialist = None, timestamp = 1\<rparr>"
    by (simp add: msgA_def setChatInput_def)
  have m: "msgErr = (case Failed ''x'' of
          Failed msg \<Rightarrow> \<lparr>role = Model, text_m = ''**System Error:** '' @ msg,
                          specialist = None, timestamp = 2\<rparr>
        | Answered reply \<Rightarrow>
            \<lparr>role = Model,
             text_m = (case jsonMatch reply of
                         None \<Rightarrow> fullText reply
                       | Some (stripped, None) \<Rightarrow> fullText reply
                       | Some (stripped, Some a) \<Rightarrow> trim stripped),
             specialist = Some (case specMatch reply of
                                  None \<Rightarrow> ''The Liaison''
                                | Some s \<Rightarrow> remove1 CHR '':'' s),
             timestamp = 2\<rparr>)"
    by (simp add: msgErr_def)
  have s1: "stringify exampleJSON ([] @ [msgA]) = jsonA"
    by (simp add: exampleJSON_def)
  have s2: "stringify exampleJSON ([] @ [msgA, msgErr]) = jsonAErr"
    by (simp add: exampleJSON_def msgA_def msgB_def msgErr_def)
  show ?thesis
    using send_appends_user_message_and_reply [OF sent issued active hist later u m, of "''n''"]
      sent issued
    by (auto simp: s1 s2 simp del: append_Nil)
qed

text \<open>
  C10. Without an API key a send changes nothing, by the Enter key or by the RUN button:
  no message is appended, no request is issued, no error is raised or shown.
\<close>

theorem send_without_api_key_is_noop:
  assumes "apiKey (app w) = []"
  shows "handleSendMessage J now w = (None, w) \<and> onKeyDown J now key w = (None, w) \<and>
         onClickRun J now w = (None, w)"
  using assms by (simp add: handleSendMessage_def onKeyDown_def onClickRun_def truthy_def Let_def)

theorem send_without_api_key_is_noop_witness:
  "apiKey (app world_nokey) = [] \<and> chatInput (app world_nokey) = ''a'' \<and>
   handleSendMessage exampleJSON 1 world_nokey = (None, world_nokey) \<and>
   onKeyDown exampleJSON 1 ''Enter'' world_nokey = (None, world_nokey) \<and>
   onClickRun exampleJSON 1 world_nokey = (None, world_nokey)"
proof -
  have key: "apiKey (app world_nokey) = []"
    by (simp add: world_nokey_def setChatInput_def initialState_def)
  moreover have "chatInput (app world_nokey) = ''a''"
    by (simp add: world_nokey_def setChatInput_def)
  ultimately show ?thesis
    using send_without_api_key_is_noop [OF key, of exampleJSON 1 "''Enter''"] by simp
qed

text \<open>
  C2. The claim is that a send is rejected while a prior send is in flight. The RUN
  button is disabled then, but the Enter key calls \<open>handleSendMessage\<close>, which does not
  read \<open>isProcessing\<close>: with a send in flight, a non-blank input, an API key and an
  active chat file, the Enter key appends the message and issues one more request.
\<close>

theorem enter_key_sends_while_processing:
  assumes "isProcessing (app w)"
    and "truthy (trim (chatInput (app w)))" and "truthy (apiKey (app w))"
    and "activeFile (app w) = Some f" and "type f = Some Chat"
    and "Option.bind (content f) (parse J) = Some h"
    and "workspaceContext (files (app w)) = Some ctx"
  shows "fst (onKeyDown J now ''Enter'' w) = None \<and>
         length (outstanding (snd (onKeyDown J now ''Enter'' w))) = Suc (length (outstanding w)) \<and>
         map_option content (fileById (id_f f) (app (snd (onKeyDown J now ''Enter'' w)))) =
           Some (Some (stringify J (h @ [\<lparr>role = User, text_m = chatInput (app w),
                          specialist = None, timestamp = now\<rparr>]))) \<and>
         onClickRun J now w = (None, w)"
  using assms activeFile_fileById [of "app w" f]
  by (simp add: onKeyDown_def onClickRun_def handleSendMessage_def Let_def fileById_update_same)

theorem enter_key_sends_while_processing_witness:
  "isProcessing (app world2) \<and> length (outstanding world2) = 1 \<and>
   fst (onKeyDown exampleJSON 3 ''Enter'' world2) = None \<and>
   length (outstanding (snd (onKeyDown exampleJSON 3 ''Enter'' world2))) = 2 \<and>
   map_option content (fileById ''1'' (app (snd (onKeyDown exampleJSON 3 ''Enter'' world2)))) =
     Some (Some jsonAB) \<and>
   onClickRun exampleJSON 3 world2 = (None, world2)"
proof -
  let ?f = "\<lparr>id_f = ''1'', name = ''MWI_Chat'', type = Some Chat, content = Some jsonA\<rparr>"
  have app2: "app world2 = (initialState ''k'')\<lparr>files := [?f], isProcessing := True, chatInput := ''b''\<rparr>"
    by (simp add: world2_def setChatInput_def world1_app)
  have out2: "outstanding world2 = outstanding world1"
    by (simp add: world2_def setChatInput_def)
  have h1: "isProcessing (app world2)" by (simp add: app2)
  have h2: "truthy (trim (chatInput (app world2)))" by (simp add: app2 trim_b truthy_def)
  have h3: "truthy (apiKey (app world2))" by (simp add: app2 initialState_def truthy_def)
  have h4: "activeFile (app world2) = Some ?f" by (simp add: app2 activeFile_def initialState_def)
  have h5: "type ?f = Some Chat" by simp
  have h6: "Option.bind (content ?f) (parse exampleJSON) = Some [msgA]" by (simp add: parse_jsonA)
  obtain ctx where h7: "workspaceContext (files (app world2)) = Some ctx"
    by (simp add: app2 workspaceContext_def workspaceEntry_def)
  have s: "stringify exampleJSON ([msgA] @ [\<lparr>role = User, text_m = chatInput (app world2),
                          specialist = None, timestamp = 3\<rparr>]) = jsonAB"
    by (simp add: app2 exampleJSON_def msgA_def msgB_def)
  show ?thesis
    using enter_key_sends_while_processing [OF h1 h2 h3 h4 h5 h6 h7, of 3] h1 s
    by (simp add: out2 world1_outstanding)
qed

end
